theory Spec2Isabelle
  imports Main "HOL-Library.Finite_Map"
begin

section \<open>photoSort: a shallow embedding of \<^verbatim>\<open>src/photoSort.py\<close>\<close>

text \<open>
  The script walks a source directory, resolves a capture date for every media file
  (embedded metadata first, file modification time as the fallback), plans the
  destination \<^verbatim>\<open>dest/YYYY/MM - Mon/name\<close>, renames on a size conflict, skips on an
  identical size, and copies or moves the file unless \<^verbatim>\<open>--dry-run\<close> is given.

  Strings are ASCII byte strings. A path names a file by its exact text: the model
  is meant for the absolute, normalised paths that \<^verbatim>\<open>process_directory\<close> builds from
  \<^verbatim>\<open>os.path.abspath\<close> and the names that \<^verbatim>\<open>os.walk\<close> yields.
\<close>

subsection \<open>Library functions on strings and paths\<close>

type_synonym path = string

text \<open>\<^verbatim>\<open>str.lower()\<close> on ASCII letters.\<close>

definition ascii_uppercase :: string where
  "ascii_uppercase = ''ABCDEFGHIJKLMNOPQRSTUVWXYZ''"

definition ascii_lowercase :: string where
  "ascii_lowercase = ''abcdefghijklmnopqrstuvwxyz''"

definition lower_char :: "char \<Rightarrow> char" where
  "lower_char c =
     (case map_of (zip ascii_uppercase ascii_lowercase) c of
        None \<Rightarrow> c
      | Some d \<Rightarrow> d)"

definition py_lower :: "string \<Rightarrow> string" where
  "py_lower s = map lower_char s"

text \<open>\<^verbatim>\<open>s.endswith(suffix)\<close>.\<close>

definition endswith :: "string \<Rightarrow> string \<Rightarrow> bool" where
  "endswith s suffix =
     (length suffix \<le> length s \<and> drop (length s - length suffix) s = suffix)"

text \<open>
  \<^verbatim>\<open>s.rfind(c)\<close>: the index of the last occurrence of a character, or -1. Read
  from the right end, what remains once the characters other than \<open>c\<close> are dropped
  ends with that occurrence.
\<close>

definition rfind :: "char \<Rightarrow> string \<Rightarrow> int" where
  "rfind c s = int (length (dropWhile (\<lambda>x. x \<noteq> c) (rev s))) - 1"

text \<open>
  \<^verbatim>\<open>os.path.splitext\<close> (POSIX): the extension starts at the last dot of the last
  path component, unless that component has only dots before it.
\<close>

definition os_path_splitext :: "path \<Rightarrow> string \<times> string" where
  "os_path_splitext p =
     (let sepIndex = rfind (CHR ''/'') p;
          dotIndex = rfind (CHR ''.'') p
      in if dotIndex > sepIndex \<and>
            list_ex (\<lambda>c. c \<noteq> CHR ''.'')
              (take (nat dotIndex - nat (sepIndex + 1)) (drop (nat (sepIndex + 1)) p))
         then (take (nat dotIndex) p, drop (nat dotIndex) p)
         else (p, []))"

text \<open>\<^verbatim>\<open>os.path.basename\<close> (POSIX): what follows the last slash.\<close>

definition os_path_basename :: "path \<Rightarrow> string" where
  "os_path_basename p = drop (nat (rfind (CHR ''/'') p + 1)) p"

text \<open>\<^verbatim>\<open>os.path.join\<close> (POSIX), one component at a time.\<close>

definition join2 :: "path \<Rightarrow> path \<Rightarrow> path" where
  "join2 a b =
     (if b \<noteq> [] \<and> hd b = CHR ''/'' then b
      else if a = [] \<or> last a = CHR ''/'' then a @ b
      else a @ ''/'' @ b)"

definition os_path_join :: "path \<Rightarrow> path list \<Rightarrow> path" where
  "os_path_join a ps = foldl join2 a ps"

text \<open>Decimal formatting: \<^verbatim>\<open>str(n)\<close> for a natural number, \<^verbatim>\<open>f"{i:0wd}"\<close> for an integer.\<close>

definition digit_char :: "nat \<Rightarrow> char" where
  "digit_char n = ''0123456789'' ! n"

fun str_nat :: "nat \<Rightarrow> string" where
  "str_nat n = (if n < 10 then [digit_char n] else str_nat (n div 10) @ [digit_char (n mod 10)])"

declare str_nat.simps [simp del]

definition format_0d :: "nat \<Rightarrow> int \<Rightarrow> string" where
  "format_0d w i =
     (if i < 0
      then ''-'' @ replicate (w - 1 - length (str_nat (nat (- i)))) (CHR ''0'') @ str_nat (nat (- i))
      else replicate (w - length (str_nat (nat i))) (CHR ''0'') @ str_nat (nat i))"

subsection \<open>Errors, dates, the filesystem, the log\<close>

datatype error =
    IndexError
  | FileNotFoundError
  | FileExistsError
  | NotADirectoryError
  | IsADirectoryError
  | SameFileError
  | ValueError
  | OverflowError
  | OSError

text \<open>
  \<^verbatim>\<open>xs[i]\<close> on a Python list: indices from \<open>-len(xs)\<close> to \<open>-1\<close> address the list
  from its end, and an index outside \<open>-len(xs) .. len(xs) - 1\<close> raises.
\<close>

definition py_index :: "'a list \<Rightarrow> int \<Rightarrow> error + 'a" where
  "py_index xs i =
     (if 0 \<le> i \<and> i < int (length xs) then Inr (xs ! nat i)
      else if i < 0 \<and> - int (length xs) \<le> i then Inr (xs ! nat (int (length xs) + i))
      else Inl IndexError)"

text \<open>
  A \<^verbatim>\<open>datetime\<close> value. Python's constructor only builds values whose year is in
  1..9999 and whose month is in 1..12 (and more); \<open>datetime_ok\<close> records the part of
  that class invariant the program relies on.
\<close>

record datetime =
  year :: int
  month :: int
  day :: int
  hour :: int
  minute :: int
  second :: int

definition datetime_ok :: "datetime \<Rightarrow> bool" where
  "datetime_ok d = (1 \<le> year d \<and> year d \<le> 9999 \<and> 1 \<le> month d \<and> month d \<le> 12)"

text \<open>
  What one metadata backend (PIL, exifread, ffmpeg) produces for a file, parsing
  included: a date, nothing, or an exception that the caller logs and swallows.
\<close>

datatype 'a attempt = Found 'a | NoValue | Raised

text \<open>
  A filesystem node: a directory or a regular file, its size in bytes, its
  modification time (whole seconds since the epoch), and what each backend reads in it.
\<close>

record node =
  is_dir :: bool
  st_size :: nat
  st_mtime :: int
  pil_exif :: "datetime attempt"
  exifread_exif :: "datetime attempt"
  ffmpeg_probe :: "datetime attempt"

type_synonym filesystem = "(path, node) fmap"

text \<open>One constructor for each \<^verbatim>\<open>logger\<close> call of the script, with the values it prints.\<close>

datatype event =
    ErrNoImageBackend
  | WarnNoFfmpeg
  | WarnNoPiexif
  | ErrPIL path
  | ErrExifread path
  | ErrFfmpeg path
  | InfoNoMetadata path datetime
  | InfoAddedExif path
  | ErrAddingExif
  | InfoSkipping path
  | InfoWould bool path path
  | DebugCopying path path
  | DebugMoving path path
  | ErrProcessing path error
  | ErrSameDirectory
  | InfoSkippingNonMedia path
  | InfoComplete nat nat nat
  | ErrNoSourceDirectory path
  | InfoStarting path path
  | InfoMode bool bool
  | InfoSuccess
  | ErrCompletedWithErrors

record world =
  fs :: filesystem
  log :: "event list"

definition logger :: "event \<Rightarrow> world \<Rightarrow> world" where
  "logger e w = w\<lparr>log := log w @ [e]\<rparr>"

text \<open>
  What the run depends on besides the filesystem: which optional modules were
  imported, the local-time conversion \<^verbatim>\<open>datetime.fromtimestamp\<close> (it raises for
  a time that the platform or \<^verbatim>\<open>datetime\<close> cannot represent), the effect of
  \<^verbatim>\<open>piexif\<close> writing a date into a JPEG (\<open>None\<close> when it raises),
  \<^verbatim>\<open>os.path.abspath\<close>, the sequence that \<^verbatim>\<open>os.walk\<close> yields (directory, file names),
  and the node a fresh directory gets.
\<close>

record env =
  HAS_PIL :: bool
  HAS_EXIFREAD :: bool
  HAS_FFMPEG :: bool
  HAS_PIEXIF :: bool
  fromtimestamp :: "int \<Rightarrow> error + datetime"
  piexif_insert :: "datetime \<Rightarrow> node \<Rightarrow> node option"
  abspath :: "path \<Rightarrow> path"
  os_walk :: "path \<Rightarrow> (path \<times> string list) list"
  fresh_dir :: node

subsection \<open>Filesystem primitives\<close>

definition os_path_exists :: "filesystem \<Rightarrow> path \<Rightarrow> bool" where
  "os_path_exists f p = (fmlookup f p \<noteq> None)"

definition os_path_isdir :: "filesystem \<Rightarrow> path \<Rightarrow> bool" where
  "os_path_isdir f p = (case fmlookup f p of None \<Rightarrow> False | Some n \<Rightarrow> is_dir n)"

definition os_path_getsize :: "filesystem \<Rightarrow> path \<Rightarrow> error + nat" where
  "os_path_getsize f p =
     (case fmlookup f p of None \<Rightarrow> Inl FileNotFoundError | Some n \<Rightarrow> Inr (st_size n))"

definition os_path_getmtime :: "filesystem \<Rightarrow> path \<Rightarrow> error + int" where
  "os_path_getmtime f p =
     (case fmlookup f p of None \<Rightarrow> Inl FileNotFoundError | Some n \<Rightarrow> Inr (st_mtime n))"

text \<open>
  The ancestors of a path, outermost first: every proper prefix that ends just
  before a slash (the empty prefix apart), then the path itself.
\<close>

definition ancestors :: "path \<Rightarrow> path list" where
  "ancestors p =
     map (\<lambda>i. take i p) (filter (\<lambda>i. 0 < i \<and> p ! i = CHR ''/'') [0..<length p]) @ [p]"

text \<open>
  \<^verbatim>\<open>os.makedirs(name, exist_ok=True)\<close>: every missing ancestor is created; an
  ancestor that exists and is no directory makes it raise.
\<close>

fun mkdirs :: "env \<Rightarrow> path list \<Rightarrow> filesystem \<Rightarrow> error + filesystem" where
  "mkdirs e [] f = Inr f"
| "mkdirs e (p # ps) f =
     (case fmlookup f p of
        None \<Rightarrow> mkdirs e ps (fmupd p (fresh_dir e) f)
      | Some n \<Rightarrow>
          if is_dir n then mkdirs e ps f
          else Inl (if ps = [] then FileExistsError else NotADirectoryError))"

definition os_makedirs :: "env \<Rightarrow> path \<Rightarrow> filesystem \<Rightarrow> error + filesystem" where
  "os_makedirs e name f = mkdirs e (ancestors name) f"

text \<open>The directory part of a path (\<^verbatim>\<open>os.path.dirname\<close>, for a normalised path).\<close>

definition parent :: "path \<Rightarrow> path" where
  "parent p = take (nat (rfind (CHR ''/'') p)) p"

text \<open>
  \<^verbatim>\<open>shutil.copy2(src, dst)\<close>: the destination gets the source's content and
  metadata; a destination that is a directory receives the file under its own name.
\<close>

definition shutil_copy2 :: "path \<Rightarrow> path \<Rightarrow> filesystem \<Rightarrow> error + filesystem" where
  "shutil_copy2 src dst f =
     (case fmlookup f src of
        None \<Rightarrow> Inl FileNotFoundError
      | Some n \<Rightarrow>
          if is_dir n then Inl IsADirectoryError
          else let target = (if os_path_isdir f dst
                             then os_path_join dst [os_path_basename src] else dst)
               in if target = src then Inl SameFileError
                  else if os_path_isdir f target then Inl IsADirectoryError
                  else if \<not> os_path_isdir f (parent target) then Inl FileNotFoundError
                  else Inr (fmupd target n f))"

text \<open>
  \<^verbatim>\<open>shutil.move(src, dst)\<close>: into the directory when the destination is one
  (refusing to overwrite there), a rename otherwise.
\<close>

definition shutil_move :: "path \<Rightarrow> path \<Rightarrow> filesystem \<Rightarrow> error + filesystem" where
  "shutil_move src dst f =
     (case fmlookup f src of
        None \<Rightarrow> Inl FileNotFoundError
      | Some n \<Rightarrow>
          let target = (if os_path_isdir f dst
                        then os_path_join dst [os_path_basename src] else dst)
          in if os_path_isdir f dst \<and> os_path_exists f target then Inl FileExistsError
             else if \<not> os_path_isdir f (parent target) then Inl FileNotFoundError
             else Inr (fmupd target n (fmdrop src f)))"

subsection \<open>The script\<close>

definition IMAGE_EXTENSIONS :: "string set" where
  "IMAGE_EXTENSIONS =
     {''.jpg'', ''.jpeg'', ''.png'', ''.gif'', ''.tiff'', ''.bmp'', ''.heic'', ''.heif'', ''.dng''}"

definition VIDEO_EXTENSIONS :: "string set" where
  "VIDEO_EXTENSIONS =
     {''.mp4'', ''.mov'', ''.avi'', ''.mkv'', ''.wmv'', ''.m4v'', ''.3gp'', ''.flv''}"

definition MEDIA_EXTENSIONS :: "string set" where
  "MEDIA_EXTENSIONS = IMAGE_EXTENSIONS \<union> VIDEO_EXTENSIONS"

text \<open>\<^verbatim>\<open>os.path.splitext(p)[1].lower()\<close>, as both the walker and the resolver compute it.\<close>

definition file_ext_of :: "path \<Rightarrow> string" where
  "file_ext_of p = py_lower (snd (os_path_splitext p))"

definition check_dependencies :: "env \<Rightarrow> world \<Rightarrow> bool \<times> world" where
  "check_dependencies e w =
     (if \<not> HAS_PIL e \<and> \<not> HAS_EXIFREAD e then (False, logger ErrNoImageBackend w)
      else let w1 = (if \<not> HAS_FFMPEG e then logger WarnNoFfmpeg w else w);
               w2 = (if \<not> HAS_PIEXIF e then logger WarnNoPiexif w1 else w1)
           in (True, w2))"

text \<open>What a backend reads at a path; opening a missing file raises.\<close>

definition backend :: "filesystem \<Rightarrow> path \<Rightarrow> (node \<Rightarrow> datetime attempt) \<Rightarrow> datetime attempt" where
  "backend f p sel = (case fmlookup f p of None \<Rightarrow> Raised | Some n \<Rightarrow> sel n)"

text \<open>One \<^verbatim>\<open>try\<close> block around a backend: an exception is logged and gives no value.\<close>

definition try_backend :: "datetime attempt \<Rightarrow> event \<Rightarrow> world \<Rightarrow> datetime option \<times> world" where
  "try_backend a err w =
     (case a of
        Found d \<Rightarrow> (Some d, w)
      | NoValue \<Rightarrow> (None, w)
      | Raised \<Rightarrow> (None, logger err w))"

definition get_date_taken_from_image :: "env \<Rightarrow> path \<Rightarrow> world \<Rightarrow> datetime option \<times> world" where
  "get_date_taken_from_image e file_path w =
     (case (if HAS_PIL e
            then try_backend (backend (fs w) file_path pil_exif) (ErrPIL file_path) w
            else (None, w)) of
        (Some d, w1) \<Rightarrow> (Some d, w1)
      | (None, w1) \<Rightarrow>
          if HAS_EXIFREAD e
          then try_backend (backend (fs w1) file_path exifread_exif) (ErrExifread file_path) w1
          else (None, w1))"

definition get_date_taken_from_video :: "env \<Rightarrow> path \<Rightarrow> world \<Rightarrow> datetime option \<times> world" where
  "get_date_taken_from_video e file_path w =
     (if HAS_FFMPEG e
      then try_backend (backend (fs w) file_path ffmpeg_probe) (ErrFfmpeg file_path) w
      else (None, w))"

definition add_date_to_exif :: "env \<Rightarrow> path \<Rightarrow> datetime \<Rightarrow> world \<Rightarrow> bool \<times> world" where
  "add_date_to_exif e file_path date_taken w =
     (if \<not> HAS_PIL e \<or> \<not> HAS_PIEXIF e then (False, w)
      else if \<not> (endswith (py_lower file_path) ''.jpg'' \<or> endswith (py_lower file_path) ''.jpeg'')
      then (False, w)
      else (case fmlookup (fs w) file_path of
              None \<Rightarrow> (False, logger ErrAddingExif w)
            | Some n \<Rightarrow>
                (case piexif_insert e date_taken n of
                   None \<Rightarrow> (False, logger ErrAddingExif w)
                 | Some n' \<Rightarrow> (True, w\<lparr>fs := fmupd file_path n' (fs w)\<rparr>))))"

definition get_file_date :: "env \<Rightarrow> path \<Rightarrow> world \<Rightarrow> (error + datetime) \<times> world" where
  "get_file_date e file_path w =
     (let file_ext = file_ext_of file_path
      in case (if file_ext \<in> IMAGE_EXTENSIONS then get_date_taken_from_image e file_path w
               else if file_ext \<in> VIDEO_EXTENSIONS then get_date_taken_from_video e file_path w
               else (None, w)) of
           (Some date_taken, w1) \<Rightarrow> (Inr date_taken, w1)
         | (None, w1) \<Rightarrow>
             (case os_path_getmtime (fs w1) file_path of
                Inl x \<Rightarrow> (Inl x, w1)
              | Inr mtime \<Rightarrow>
                  (case fromtimestamp e mtime of
                     Inl x \<Rightarrow> (Inl x, w1)
                   | Inr date_taken \<Rightarrow>
                       let w2 = logger (InfoNoMetadata file_path date_taken) w1
                       in if file_ext \<in> IMAGE_EXTENSIONS \<and> HAS_PIL e \<and> HAS_PIEXIF e
                          then (Inr date_taken,
                                logger (InfoAddedExif file_path)
                                  (snd (add_date_to_exif e file_path date_taken w2)))
                          else (Inr date_taken, w2))))"

definition month_names :: "string list" where
  "month_names = [''Jan'', ''Feb'', ''Mar'', ''Apr'', ''May'', ''Jun'',
                  ''Jul'', ''Aug'', ''Sep'', ''Oct'', ''Nov'', ''Dec'']"

definition create_destination_path ::
  "env \<Rightarrow> path \<Rightarrow> datetime \<Rightarrow> path \<Rightarrow> world \<Rightarrow> (error + path) \<times> world" where
  "create_destination_path e dest_root date_taken file_path w =
     (case py_index month_names (month date_taken - 1) of
        Inl x \<Rightarrow> (Inl x, w)
      | Inr month_name \<Rightarrow>
          let year_month_dir =
                os_path_join dest_root
                  [format_0d 4 (year date_taken),
                   format_0d 2 (month date_taken) @ '' - '' @ month_name]
          in case os_makedirs e year_month_dir (fs w) of
               Inl x \<Rightarrow> (Inl x, w)
             | Inr f \<Rightarrow>
                 (Inr (os_path_join year_month_dir [os_path_basename file_path]),
                  w\<lparr>fs := f\<rparr>))"

text \<open>The path the rename loop tries for a counter value: \<^verbatim>\<open>f"{base}_{counter}{ext}"\<close>.\<close>

definition suffixed :: "string \<Rightarrow> string \<Rightarrow> nat \<Rightarrow> path" where
  "suffixed base ext counter = base @ ''_'' @ str_nat counter @ ext"

text \<open>
  Distinct counters give distinct paths, so only finitely many of the paths the loop
  can try exist in a filesystem; this is what makes the loop below terminate.
\<close>

lemma digit_char_inj: "a < 10 \<Longrightarrow> b < 10 \<Longrightarrow> digit_char a = digit_char b \<Longrightarrow> a = b"
proof -
  assume a: "a < 10" and b: "b < 10" and e: "digit_char a = digit_char b"
  have d: "distinct ''0123456789''" by simp
  have l: "length ''0123456789'' = 10" by simp
  from e have "''0123456789'' ! a = ''0123456789'' ! b" by (simp only: digit_char_def)
  with nth_eq_iff_index_eq [OF d, of a b] a b l show "a = b" by simp
qed

lemma str_nat_nonempty: "str_nat n \<noteq> []"
  by (subst str_nat.simps) simp

lemma str_nat_inj: "str_nat m = str_nat n \<Longrightarrow> m = n"
proof (induction m arbitrary: n rule: str_nat.induct)
  case (1 m)
  show ?case
  proof (cases "m < 10")
    case mlt: True
    show ?thesis
    proof (cases "n < 10")
      case True
      with mlt "1.prems" show ?thesis
        by (simp add: str_nat.simps [of m] str_nat.simps [of n] digit_char_inj)
    next
      case False
      with mlt "1.prems" have "[digit_char m] = str_nat (n div 10) @ [digit_char (n mod 10)]"
        by (simp add: str_nat.simps [of m] str_nat.simps [of n])
      then have "str_nat (n div 10) = []" by simp
      then show ?thesis by (simp add: str_nat_nonempty)
    qed
  next
    case mge: False
    show ?thesis
    proof (cases "n < 10")
      case True
      with mge "1.prems" have "str_nat (m div 10) @ [digit_char (m mod 10)] = [digit_char n]"
        by (simp add: str_nat.simps [of m] str_nat.simps [of n])
      then have "str_nat (m div 10) = []" by simp
      then show ?thesis by (simp add: str_nat_nonempty)
    next
      case False
      with mge "1.prems" have e: "str_nat (m div 10) = str_nat (n div 10)"
        and d: "digit_char (m mod 10) = digit_char (n mod 10)"
        by (simp_all add: str_nat.simps [of m] str_nat.simps [of n])
      from "1.IH" [OF mge e] have q: "m div 10 = n div 10" .
      from d have r: "m mod 10 = n mod 10" by (simp add: digit_char_inj)
      from q r show ?thesis by (metis div_mult_mod_eq)
    qed
  qed
qed

lemma suffixed_inj: "inj (suffixed base ext)"
  by (rule injI) (simp add: suffixed_def str_nat_inj)

lemma finite_suffixes: "finite {k. suffixed base ext k \<in> fmdom' f}"
proof -
  have "finite (suffixed base ext -` fmdom' f)"
    by (rule finite_vimageI [OF _ suffixed_inj]) simp
  then show ?thesis by (simp add: vimage_def)
qed

definition pending :: "filesystem \<Rightarrow> string \<Rightarrow> string \<Rightarrow> nat \<Rightarrow> nat set" where
  "pending f base ext c = {k. c \<le> k \<and> suffixed base ext k \<in> fmdom' f}"

lemma finite_pending: "finite (pending f base ext c)"
  unfolding pending_def by (rule finite_subset [OF _ finite_suffixes [of base ext f]]) auto

lemma pending_step:
  "card (pending f base ext (Suc c)) + (if suffixed base ext c \<in> fmdom' f then 1 else 0)
     = card (pending f base ext c)"
proof (cases "suffixed base ext c \<in> fmdom' f")
  case True
  then have "pending f base ext c = insert c (pending f base ext (Suc c))"
    unfolding pending_def by (auto simp: le_Suc_eq)
  moreover have "c \<notin> pending f base ext (Suc c)" by (simp add: pending_def)
  ultimately show ?thesis using True by (simp add: finite_pending)
next
  case False
  then have "pending f base ext c = pending f base ext (Suc c)"
    unfolding pending_def by (auto simp: le_Suc_eq Suc_le_eq) (metis le_neq_implies_less)
  with False show ?thesis by simp
qed

text \<open>
  The rename loop of \<^verbatim>\<open>process_file\<close>:
  \<^verbatim>\<open>while os.path.exists(dest_path): dest_path = f"{base}_{counter}{ext}"; counter += 1\<close>.
  It returns the final path and the final counter.
\<close>

lemma exists_iff_dom: "os_path_exists f p \<longleftrightarrow> p \<in> fmdom' f"
  by (auto simp: os_path_exists_def fmlookup_dom'_iff)

function suffix_loop :: "filesystem \<Rightarrow> string \<Rightarrow> string \<Rightarrow> path \<Rightarrow> nat \<Rightarrow> path \<times> nat" where
  "suffix_loop f base ext dest_path counter =
     (if os_path_exists f dest_path
      then suffix_loop f base ext (suffixed base ext counter) (counter + 1)
      else (dest_path, counter))"
  by pat_completeness auto
termination
proof (relation "measure (\<lambda>(f, base, ext, dest_path, counter).
          card (pending f base ext counter) + (if dest_path \<in> fmdom' f then 1 else 0))")
  show "wf (measure (\<lambda>(f, base, ext, dest_path, counter).
          card (pending f base ext counter) + (if dest_path \<in> fmdom' f then 1 else 0)))"
    by simp
next
  fix f :: filesystem and base ext dest_path :: string and counter :: nat
  assume "os_path_exists f dest_path"
  then have "dest_path \<in> fmdom' f"
    by (simp only: exists_iff_dom)
  with pending_step [of f base ext counter]
  show "((f, base, ext, suffixed base ext counter, counter + 1), (f, base, ext, dest_path, counter))
        \<in> measure (\<lambda>(f, base, ext, dest_path, counter).
          card (pending f base ext counter) + (if dest_path \<in> fmdom' f then 1 else 0))"
    by simp
qed

declare suffix_loop.simps [simp del]

text \<open>
  \<^verbatim>\<open># Handle filename conflicts\<close>: when the planned path exists and the sizes differ,
  the rename loop runs from counter 1.
\<close>

definition handle_filename_conflicts :: "path \<Rightarrow> path \<Rightarrow> filesystem \<Rightarrow> error + path" where
  "handle_filename_conflicts file_path dest_path f =
     (if os_path_exists f dest_path
      then (case os_path_getsize f file_path of
              Inl x \<Rightarrow> Inl x
            | Inr s \<Rightarrow>
                (case os_path_getsize f dest_path of
                   Inl x \<Rightarrow> Inl x
                 | Inr t \<Rightarrow>
                     if s \<noteq> t
                     then (case os_path_splitext dest_path of
                             (base, ext) \<Rightarrow> Inr (fst (suffix_loop f base ext dest_path 1)))
                     else Inr dest_path))
      else Inr dest_path)"

text \<open>\<^verbatim>\<open># Skip if destination exists and has same size\<close>: the condition of that test.\<close>

definition same_size_exists :: "path \<Rightarrow> path \<Rightarrow> filesystem \<Rightarrow> error + bool" where
  "same_size_exists file_path dest_path f =
     (if os_path_exists f dest_path
      then (case os_path_getsize f file_path of
              Inl x \<Rightarrow> Inl x
            | Inr s \<Rightarrow>
                (case os_path_getsize f dest_path of
                   Inl x \<Rightarrow> Inl x
                 | Inr t \<Rightarrow> Inr (s = t)))
      else Inr False)"

text \<open>
  The \<^verbatim>\<open>try\<close> block of \<^verbatim>\<open>process_file\<close>. Its value is \<open>Some True\<close> for
  \<^verbatim>\<open>return True\<close> and \<open>None\<close> for the bare \<^verbatim>\<open>return\<close> of the skip; an exception
  leaves the block with the world as it was when it was raised.
\<close>

definition process_file_try ::
  "env \<Rightarrow> path \<Rightarrow> path \<Rightarrow> bool \<Rightarrow> bool \<Rightarrow> world \<Rightarrow> (error + bool option) \<times> world" where
  "process_file_try e file_path dest_root dry_run copy_instead_of_move w =
     (case get_file_date e file_path w of
        (Inl x, w1) \<Rightarrow> (Inl x, w1)
      | (Inr date_taken, w1) \<Rightarrow>
          (case create_destination_path e dest_root date_taken file_path w1 of
             (Inl x, w2) \<Rightarrow> (Inl x, w2)
           | (Inr planned, w2) \<Rightarrow>
               (case handle_filename_conflicts file_path planned (fs w2) of
                  Inl x \<Rightarrow> (Inl x, w2)
                | Inr dest_path \<Rightarrow>
                    (case same_size_exists file_path dest_path (fs w2) of
                       Inl x \<Rightarrow> (Inl x, w2)
                     | Inr True \<Rightarrow> (Inr None, logger (InfoSkipping file_path) w2)
                     | Inr False \<Rightarrow>
                         if dry_run
                         then (Inr (Some True),
                               logger (InfoWould copy_instead_of_move file_path dest_path) w2)
                         else if copy_instead_of_move
                         then (let w3 = logger (DebugCopying file_path dest_path) w2
                               in case shutil_copy2 file_path dest_path (fs w3) of
                                    Inl x \<Rightarrow> (Inl x, w3)
                                  | Inr f \<Rightarrow> (Inr (Some True), w3\<lparr>fs := f\<rparr>))
                         else (let w3 = logger (DebugMoving file_path dest_path) w2
                               in case shutil_move file_path dest_path (fs w3) of
                                    Inl x \<Rightarrow> (Inl x, w3)
                                  | Inr f \<Rightarrow> (Inr (Some True), w3\<lparr>fs := f\<rparr>))))))"

text \<open>\<^verbatim>\<open>process_file\<close>: the \<^verbatim>\<open>except Exception\<close> clause logs and returns \<^verbatim>\<open>False\<close>.\<close>

definition process_file ::
  "env \<Rightarrow> path \<Rightarrow> path \<Rightarrow> bool \<Rightarrow> bool \<Rightarrow> world \<Rightarrow> bool option \<times> world" where
  "process_file e file_path dest_root dry_run copy_instead_of_move w =
     (case process_file_try e file_path dest_root dry_run copy_instead_of_move w of
        (Inl x, w') \<Rightarrow> (Some False, logger (ErrProcessing file_path x) w')
      | (Inr result, w') \<Rightarrow> (result, w'))"

record counts =
  success_count :: nat
  error_count :: nat
  skipped_count :: nat

text \<open>
  The body of the inner loop of \<^verbatim>\<open>process_directory\<close>, for one file name of one
  directory. \<^verbatim>\<open>if result:\<close> holds for \<^verbatim>\<open>True\<close> only: \<^verbatim>\<open>False\<close> and \<^verbatim>\<open>None\<close> are falsy.
\<close>

definition visit_file ::
  "env \<Rightarrow> path \<Rightarrow> bool \<Rightarrow> bool \<Rightarrow> path \<Rightarrow> string \<Rightarrow> counts \<times> world \<Rightarrow> counts \<times> world" where
  "visit_file e dest_root dry_run copy_instead_of_move root filename cw =
     (case cw of (c, w) \<Rightarrow>
        let file_path = os_path_join root [filename];
            file_ext = file_ext_of filename
        in if file_ext \<in> MEDIA_EXTENSIONS
           then (case process_file e file_path dest_root dry_run copy_instead_of_move w of
                   (result, w') \<Rightarrow>
                     if result = Some True
                     then (c\<lparr>success_count := success_count c + 1\<rparr>, w')
                     else (c\<lparr>error_count := error_count c + 1\<rparr>, w'))
           else (c\<lparr>skipped_count := skipped_count c + 1\<rparr>,
                 logger (InfoSkippingNonMedia file_path) w))"

definition visit_directory ::
  "env \<Rightarrow> path \<Rightarrow> bool \<Rightarrow> bool \<Rightarrow> path \<times> string list \<Rightarrow> counts \<times> world \<Rightarrow> counts \<times> world" where
  "visit_directory e dest_root dry_run copy_instead_of_move entry cw =
     (case entry of (root, files) \<Rightarrow>
        fold (visit_file e dest_root dry_run copy_instead_of_move root) files cw)"

definition process_directory ::
  "env \<Rightarrow> path \<Rightarrow> path \<Rightarrow> bool \<Rightarrow> bool \<Rightarrow> world \<Rightarrow> bool \<times> world" where
  "process_directory e source_dir0 dest_root0 dry_run copy_instead_of_move w =
     (let source_dir = abspath e source_dir0;
          dest_root = abspath e dest_root0
      in if source_dir = dest_root then (False, logger ErrSameDirectory w)
         else (case fold (visit_directory e dest_root dry_run copy_instead_of_move)
                      (os_walk e source_dir)
                      (\<lparr>success_count = 0, error_count = 0, skipped_count = 0\<rparr>, w) of
                 (c, w') \<Rightarrow>
                   (success_count c > 0 \<and> error_count c = 0,
                    logger (InfoComplete (success_count c) (error_count c) (skipped_count c)) w')))"

text \<open>The parsed command line.\<close>

record args =
  source :: path
  destination :: path
  dry_run :: bool
  copy :: bool
  verbose :: bool

text \<open>
  \<^verbatim>\<open>main\<close>, with the exit status of the process as its value. An exception that
  \<^verbatim>\<open>os.makedirs\<close> raises is not caught: the interpreter ends with status 1.
\<close>

definition main :: "env \<Rightarrow> args \<Rightarrow> world \<Rightarrow> int \<times> world" where
  "main e a w =
     (case check_dependencies e w of
        (False, w1) \<Rightarrow> (1, w1)
      | (True, w1) \<Rightarrow>
          if \<not> os_path_isdir (fs w1) (source a)
          then (1, logger (ErrNoSourceDirectory (source a)) w1)
          else (case os_makedirs e (destination a) (fs w1) of
                  Inl x \<Rightarrow> (1, w1)
                | Inr f \<Rightarrow>
                    let w2 = logger (InfoMode (dry_run a) (copy a))
                               (logger (InfoStarting (source a) (destination a)) (w1\<lparr>fs := f\<rparr>))
                    in case process_directory e (source a) (destination a) (dry_run a) (copy a) w2 of
                         (True, w3) \<Rightarrow> (0, logger InfoSuccess w3)
                       | (False, w3) \<Rightarrow> (1, logger ErrCompletedWithErrors w3)))"

subsection \<open>The layout the specification describes\<close>

text \<open>
  The specification's words for the planned path: a four-digit year, a two-digit month,
  the English three-letter month name, each written out digit by digit and name by name.
\<close>

definition four_digits :: "int \<Rightarrow> string" where
  "four_digits y =
     [digit_char (nat (y div 1000 mod 10)), digit_char (nat (y div 100 mod 10)),
      digit_char (nat (y div 10 mod 10)), digit_char (nat (y mod 10))]"

definition two_digits :: "int \<Rightarrow> string" where
  "two_digits m = [digit_char (nat (m div 10 mod 10)), digit_char (nat (m mod 10))]"

definition month_abbrev :: "int \<Rightarrow> string" where
  "month_abbrev m =
     (if m = 1 then ''Jan'' else if m = 2 then ''Feb'' else if m = 3 then ''Mar''
      else if m = 4 then ''Apr'' else if m = 5 then ''May'' else if m = 6 then ''Jun''
      else if m = 7 then ''Jul'' else if m = 8 then ''Aug'' else if m = 9 then ''Sep''
      else if m = 10 then ''Oct'' else if m = 11 then ''Nov'' else ''Dec'')"

subsection \<open>Concrete filesystems and runs\<close>

text \<open>
  A source directory \<^verbatim>\<open>/in\<close>, a destination \<^verbatim>\<open>/out\<close>, photographs taken on
  15 March 2024 at 10:00:00. In \<open>photo n a\<close> the file has \<open>n\<close> bytes and both image
  backends read \<open>a\<close> in it.
\<close>

definition march15 :: datetime where
  "march15 = \<lparr>year = 2024, month = 3, day = 15, hour = 10, minute = 0, second = 0\<rparr>"

text \<open>
  \<^verbatim>\<open>datetime.fromtimestamp\<close> on a machine whose local time is UTC: the civil date of
  a day number, and \<^verbatim>\<open>ValueError\<close> outside the years 1 to 9999.
\<close>

definition civil_from_days :: "int \<Rightarrow> int \<times> int \<times> int" where
  "civil_from_days days =
     (let z = days + 719468;
          era = z div 146097;
          doe = z mod 146097;
          yoe = (doe - doe div 1460 + doe div 36524 - doe div 146096) div 365;
          doy = doe - (365 * yoe + yoe div 4 - yoe div 100);
          mp = (5 * doy + 2) div 153;
          m = (if mp < 10 then mp + 3 else mp - 9)
      in (yoe + era * 400 + (if m \<le> 2 then 1 else 0), m, doy - (153 * mp + 2) div 5 + 1))"

definition utc_fromtimestamp :: "int \<Rightarrow> error + datetime" where
  "utc_fromtimestamp t =
     (if t < - 62135596800 \<or> 253402300800 \<le> t then Inl ValueError
      else case civil_from_days (t div 86400) of
             (y, m, d) \<Rightarrow>
               Inr \<lparr>year = y, month = m, day = d, hour = t mod 86400 div 3600,
                    minute = t mod 3600 div 60, second = t mod 60\<rparr>)"

definition a_dir :: node where
  "a_dir = \<lparr>is_dir = True, st_size = 4096, st_mtime = 0,
            pil_exif = Raised, exifread_exif = Raised, ffmpeg_probe = Raised\<rparr>"

definition photo :: "nat \<Rightarrow> datetime attempt \<Rightarrow> node" where
  "photo n a = \<lparr>is_dir = False, st_size = n, st_mtime = 1710496800,
                pil_exif = a, exifread_exif = a, ffmpeg_probe = Raised\<rparr>"

definition example_env :: "string list \<Rightarrow> env" where
  "example_env names =
     \<lparr>HAS_PIL = True, HAS_EXIFREAD = True, HAS_FFMPEG = True, HAS_PIEXIF = True,
      fromtimestamp = utc_fromtimestamp,
      piexif_insert = (\<lambda>d n. Some (n\<lparr>st_size := st_size n + 64, pil_exif := Found d\<rparr>)),
      abspath = (\<lambda>p. p),
      os_walk = (\<lambda>p. if p = ''/in'' then [(''/in'', names)] else []),
      fresh_dir = a_dir\<rparr>"

definition sorted_dirs :: "(path \<times> node) list" where
  "sorted_dirs = [(''/in'', a_dir), (''/out'', a_dir), (''/out/2024'', a_dir),
                  (''/out/2024/03 - Mar'', a_dir)]"

definition fs_fresh :: filesystem where
  "fs_fresh = fmap_of_list
     [(''/in'', a_dir), (''/out'', a_dir), (''/in/a.jpg'', photo 10 (Found march15))]"

definition fs_migrated :: filesystem where
  "fs_migrated = fmap_of_list (sorted_dirs @
     [(''/in/a.jpg'', photo 10 (Found march15)),
      (''/out/2024/03 - Mar/a.jpg'', photo 10 (Found march15))])"

definition fs_mixed :: filesystem where
  "fs_mixed = fmap_of_list (sorted_dirs @
     [(''/in/a.jpg'', photo 10 (Found march15)),
      (''/in/b.jpg'', photo 20 (Found march15)),
      (''/out/2024/03 - Mar/a.jpg'', photo 10 (Found march15))])"

definition fs_conflict :: filesystem where
  "fs_conflict = fmap_of_list (sorted_dirs @
     [(''/in/a.jpg'', photo 5 (Found march15)),
      (''/out/2024/03 - Mar/a.jpg'', photo 10 (Found march15)),
      (''/out/2024/03 - Mar/a_1.jpg'', photo 5 (Found march15))])"

definition fs_bare :: filesystem where
  "fs_bare = fmap_of_list
     [(''/in'', a_dir), (''/out'', a_dir), (''/in/a.jpg'', photo 10 NoValue)]"

text \<open>A photograph without a date whose modification time lies in the year 10000.\<close>

definition fs_far_future :: filesystem where
  "fs_far_future = fmap_of_list
     [(''/in'', a_dir), (''/out'', a_dir),
      (''/in/a.jpg'', (photo 10 NoValue)\<lparr>st_mtime := 253402300800\<rparr>)]"

definition cli :: "bool \<Rightarrow> args" where
  "cli dry = \<lparr>source = ''/in'', destination = ''/out'', dry_run = dry, copy = False,
              verbose = False\<rparr>"



section \<open>Properties\<close>

subsection \<open>Library functions\<close>
















lemma basename_no_sep: "CHR ''/'' \<notin> set (os_path_basename p)"
proof -
  let ?tw = "takeWhile (\<lambda>x. x \<noteq> CHR ''/'') (rev p)"
  let ?dw = "dropWhile (\<lambda>x. x \<noteq> CHR ''/'') (rev p)"
  have l: "length ?tw + length ?dw = length p"
    by (metis length_append length_rev takeWhile_dropWhile_id)
  then have k: "length p - length ?tw = length ?dw" by arith
  have "os_path_basename p = drop (length ?dw) p"
    by (simp add: os_path_basename_def rfind_def)
  also have "\<dots> = rev (take (length ?tw) (rev p))"
    by (simp add: rev_take k)
  also have "take (length ?tw) (rev p) = ?tw"
    by (metis append_eq_conv_conj takeWhile_dropWhile_id)
  finally have "os_path_basename p = rev ?tw" .
  then show ?thesis by (auto dest: set_takeWhileD)
qed

lemma digit_char_0: "digit_char 0 = CHR ''0''"
  by (simp add: digit_char_def)

lemma digit_char_not_sep: "n < 10 \<Longrightarrow> digit_char n \<noteq> CHR ''/''"
proof -
  assume "n < 10"
  then have "''0123456789'' ! n \<in> set ''0123456789''" by (intro nth_mem) simp
  then show ?thesis unfolding digit_char_def by auto
qed

lemma replicate_small:
  "replicate 3 x = [x, x, x]" "replicate 2 x = [x, x]" "replicate (Suc 0) x = [x]"
  by (simp_all add: numeral_3_eq_3 numeral_2_eq_2)

lemma str_nat_small: "k < 10 \<Longrightarrow> str_nat k = [digit_char k]"
  by (simp add: str_nat.simps)

lemma str_nat_step: "10 \<le> k \<Longrightarrow> str_nat k = str_nat (k div 10) @ [digit_char (k mod 10)]"
  by (subst str_nat.simps) simp

lemma four_digits_nat:
  assumes b: "n < 10000"
  shows "replicate (4 - length (str_nat n)) (CHR ''0'') @ str_nat n =
        [digit_char (n div 1000 mod 10), digit_char (n div 100 mod 10),
         digit_char (n div 10 mod 10), digit_char (n mod 10)]"
proof -
  consider "n < 10" | "10 \<le> n \<and> n < 100" | "100 \<le> n \<and> n < 1000" | "1000 \<le> n \<and> n < 10000"
    using b by linarith
  then show ?thesis
  proof cases
    case 1
    then show ?thesis by (simp add: str_nat_small digit_char_0 replicate_small)
  next
    case 2
    then have "n div 10 < 10" by arith
    with 2 show ?thesis
      by (simp add: str_nat_step [of n] str_nat_small digit_char_0 replicate_small)
  next
    case 3
    then have a: "10 \<le> n div 10" "n div 100 < 10" "10 \<le> n" by arith+
    have d: "n div 10 div 10 = n div 100" by (simp add: div_mult2_eq [symmetric])
    from 3 a show ?thesis
      by (simp add: str_nat_step [of n] str_nat_step [of "n div 10"] str_nat_small [of "n div 100"]
          d digit_char_0 replicate_small)
  next
    case 4
    then have a: "10 \<le> n div 10" "10 \<le> n div 100" "n div 1000 < 10" "10 \<le> n"
      by arith+
    have d: "n div 10 div 10 = n div 100" "n div 100 div 10 = n div 1000"
      by (simp_all add: div_mult2_eq [symmetric])
    from 4 a show ?thesis
      by (simp add: str_nat_step [of n] str_nat_step [of "n div 10"] str_nat_step [of "n div 100"]
          str_nat_small [of "n div 1000"] d)
  qed
qed


lemma format_year:
  assumes "1 \<le> y" and "y \<le> 9999"
  shows "format_0d 4 y = four_digits y"
proof -
  define n where "n = nat y"
  with assms have y: "y = int n" and b: "n < 10000" by simp_all
  have "nat (int n div 1000 mod 10) = n div 1000 mod 10"
       "nat (int n div 100 mod 10) = n div 100 mod 10"
       "nat (int n div 10 mod 10) = n div 10 mod 10"
       "nat (int n mod 10) = n mod 10"
    by (simp_all add: nat_div_distrib nat_mod_distrib)
  with four_digits_nat [OF b] show ?thesis
    by (simp add: format_0d_def four_digits_def y)
qed

lemma month_cases:
  assumes "1 \<le> m" and "m \<le> 12"
  shows "m \<in> {1, 2, 3, 4, 5, 6, 7, 8, 9, 10, 11, 12 :: int}"
  using assms by simp arith

lemma format_month:
  assumes "1 \<le> m" and "m \<le> 12"
  shows "format_0d 2 m = two_digits m"
  using month_cases [OF assms]
  by (auto simp: format_0d_def two_digits_def str_nat.simps digit_char_def)

lemma month_table:
  assumes "1 \<le> m" and "m \<le> 12"
  shows "py_index month_names (m - 1) = Inr (month_abbrev m)"
  using month_cases [OF assms]
  by (auto simp: py_index_def month_names_def month_abbrev_def)

subsection \<open>The rename loop\<close>

lemma suffix_loop_result:
  "suffix_loop f base ext dest_path c = (p, c') \<Longrightarrow>
     \<not> os_path_exists f p \<and> c \<le> c' \<and>
     (c' = c \<longrightarrow> p = dest_path \<and> \<not> os_path_exists f dest_path) \<and>
     (c < c' \<longrightarrow> os_path_exists f dest_path \<and> p = suffixed base ext (c' - 1)) \<and>
     (\<forall>k. c \<le> k \<and> k + 1 < c' \<longrightarrow> os_path_exists f (suffixed base ext k))"
proof (induction f base ext dest_path c arbitrary: p c' rule: suffix_loop.induct)
  case (1 f base ext dest_path counter)
  show ?case
  proof (cases "os_path_exists f dest_path")
    case False
    with "1.prems" have "p = dest_path" "c' = counter" by (simp_all add: suffix_loop.simps)
    with False show ?thesis by auto
  next
    case True
    with "1.prems" have r: "suffix_loop f base ext (suffixed base ext counter) (counter + 1) = (p, c')"
      by (simp add: suffix_loop.simps [of f base ext dest_path])
    note ih = "1.IH" [OF True r]
    from ih have a: "\<not> os_path_exists f p" and b: "counter + 1 \<le> c'" by simp_all
    have e: "p = suffixed base ext (c' - 1)"
    proof (cases "c' = counter + 1")
      case True with ih show ?thesis by simp
    next
      case False with b ih show ?thesis by simp
    qed
    have g: "\<forall>k. counter \<le> k \<and> k + 1 < c' \<longrightarrow> os_path_exists f (suffixed base ext k)"
    proof (intro allI impI)
      fix k assume k: "counter \<le> k \<and> k + 1 < c'"
      show "os_path_exists f (suffixed base ext k)"
      proof (cases "k = counter")
        case True
        with k have "counter + 1 < c'" by simp
        with ih have "os_path_exists f (suffixed base ext counter)" by simp
        with True show ?thesis by simp
      next
        case False
        with k have "counter + 1 \<le> k \<and> k + 1 < c'" by simp
        with ih show ?thesis by blast
      qed
    qed
    from a b e g True show ?thesis by simp
  qed
qed

lemma suffix_loop_bound:
  assumes "suffix_loop f base ext dest_path c = (p, c')"
  shows "c' \<le> c + card {k. c \<le> k \<and> os_path_exists f (suffixed base ext k)} + 1"
proof -
  have eq: "{k. c \<le> k \<and> os_path_exists f (suffixed base ext k)} = pending f base ext c"
    by (simp add: pending_def exists_iff_dom)
  from suffix_loop_result [OF assms]
  have "\<forall>k. c \<le> k \<and> k + 1 < c' \<longrightarrow> os_path_exists f (suffixed base ext k)" by simp
  then have "{c..<c' - 1} \<subseteq> pending f base ext c"
    by (auto simp: pending_def exists_iff_dom)
  then have "card {c..<c' - 1} \<le> card (pending f base ext c)"
    by (rule card_mono [OF finite_pending])
  then show ?thesis by (simp add: eq)
qed

text \<open>
  C7. The suffix search is a total function of the filesystem, the base, the extension
  and the planned path, so it is deterministic and it terminates. Entered with a planned
  path that exists, it tries the counters 1, 2, ... in increasing order, every path
  before the last one tried exists, the last one does not, and the number \<open>n\<close> of
  iterations (the final counter is \<open>n + 1\<close>) is at most the number of existing suffixed
  files plus one.
\<close>

theorem suffix_search_terminates_bounded:
  assumes "os_path_exists f dest_path"
  shows "\<exists>n\<ge>1. suffix_loop f base ext dest_path 1 = (suffixed base ext n, n + 1) \<and>
           (\<forall>k. 1 \<le> k \<and> k < n \<longrightarrow> os_path_exists f (suffixed base ext k)) \<and>
           \<not> os_path_exists f (suffixed base ext n) \<and>
           n \<le> card {k. 1 \<le> k \<and> os_path_exists f (suffixed base ext k)} + 1"
proof -
  obtain p c' where r: "suffix_loop f base ext dest_path 1 = (p, c')"
    by (cases "suffix_loop f base ext dest_path 1")
  note s = suffix_loop_result [OF r]
  from s assms have lt: "1 < c'" by (cases "c' = 1") auto
  with s have p: "p = suffixed base ext (c' - 1)" by simp
  from suffix_loop_bound [OF r]
  have b: "c' - 1 \<le> card {k. 1 \<le> k \<and> os_path_exists f (suffixed base ext k)} + 1" by simp
  have "1 \<le> c' - 1" using lt by simp
  moreover have "suffix_loop f base ext dest_path 1 = (suffixed base ext (c' - 1), (c' - 1) + 1)"
    using r p lt by simp
  moreover have "\<forall>k. 1 \<le> k \<and> k < c' - 1 \<longrightarrow> os_path_exists f (suffixed base ext k)"
    using s by (simp add: less_diff_conv)
  moreover have "\<not> os_path_exists f (suffixed base ext (c' - 1))" using s p by simp
  ultimately show ?thesis using b by blast
qed

text \<open>
  C7 on a destination that holds \<^verbatim>\<open>a.jpg\<close> and \<^verbatim>\<open>a_1.jpg\<close>: two iterations, the
  result is \<^verbatim>\<open>a_2.jpg\<close> and the final counter is 3.
\<close>

theorem suffix_search_terminates_bounded_witness:
  "os_path_exists fs_conflict ''/out/2024/03 - Mar/a.jpg'' \<and>
   suffix_loop fs_conflict ''/out/2024/03 - Mar/a'' ''.jpg'' ''/out/2024/03 - Mar/a.jpg'' 1
     = (''/out/2024/03 - Mar/a_2.jpg'', 3) \<and>
   (\<exists>n\<ge>1. suffix_loop fs_conflict ''/out/2024/03 - Mar/a'' ''.jpg'' ''/out/2024/03 - Mar/a.jpg'' 1
            = (suffixed ''/out/2024/03 - Mar/a'' ''.jpg'' n, n + 1) \<and>
          n \<le> card {k. 1 \<le> k \<and>
                 os_path_exists fs_conflict (suffixed ''/out/2024/03 - Mar/a'' ''.jpg'' k)} + 1)"
proof -
  have h: "os_path_exists fs_conflict ''/out/2024/03 - Mar/a.jpg''" by code_simp
  have v: "suffix_loop fs_conflict ''/out/2024/03 - Mar/a'' ''.jpg'' ''/out/2024/03 - Mar/a.jpg'' 1
     = (''/out/2024/03 - Mar/a_2.jpg'', 3)" by code_simp
  from suffix_search_terminates_bounded [OF h, of "''/out/2024/03 - Mar/a''" "''.jpg''"]
  have "\<exists>n\<ge>1. suffix_loop fs_conflict ''/out/2024/03 - Mar/a'' ''.jpg'' ''/out/2024/03 - Mar/a.jpg'' 1
            = (suffixed ''/out/2024/03 - Mar/a'' ''.jpg'' n, n + 1) \<and>
          n \<le> card {k. 1 \<le> k \<and>
                 os_path_exists fs_conflict (suffixed ''/out/2024/03 - Mar/a'' ''.jpg'' k)} + 1"
    by blast
  with h v show ?thesis by blast
qed

text \<open>
  C4, as the code has it. When the planned path exists with a size other than the
  source's, the planner tries \<^verbatim>\<open>_1\<close>, \<^verbatim>\<open>_2\<close>, ... in increasing order and stops
  at the first suffixed path that does not exist: every suffixed path before it
  exists, whatever its size. The returned path names no existing file, hence
  collides with none, and the skip test that follows is false for it.
\<close>

theorem rename_stops_at_first_free_path:
  assumes "os_path_exists f planned"
    and "os_path_getsize f file_path = Inr s"
    and "os_path_getsize f planned = Inr t"
    and "s \<noteq> t"
  shows "\<exists>n\<ge>1.
           handle_filename_conflicts file_path planned f
             = Inr (suffixed (fst (os_path_splitext planned)) (snd (os_path_splitext planned)) n) \<and>
           (\<forall>k. 1 \<le> k \<and> k < n \<longrightarrow>
              os_path_exists f
                (suffixed (fst (os_path_splitext planned)) (snd (os_path_splitext planned)) k)) \<and>
           \<not> os_path_exists f
               (suffixed (fst (os_path_splitext planned)) (snd (os_path_splitext planned)) n) \<and>
           same_size_exists file_path
             (suffixed (fst (os_path_splitext planned)) (snd (os_path_splitext planned)) n) f
             = Inr False"
proof -
  let ?base = "fst (os_path_splitext planned)" and ?ext = "snd (os_path_splitext planned)"
  obtain p c' where r: "suffix_loop f ?base ?ext planned 1 = (p, c')"
    by (cases "suffix_loop f ?base ?ext planned 1")
  note s = suffix_loop_result [OF r]
  from s assms(1) have lt: "1 < c'" by (cases "c' = 1") auto
  with s have p: "p = suffixed ?base ?ext (c' - 1)" by simp
  have h: "handle_filename_conflicts file_path planned f = Inr p"
    using assms r by (simp add: handle_filename_conflicts_def case_prod_beta)
  have "1 \<le> c' - 1" using lt by simp
  moreover have "\<forall>k. 1 \<le> k \<and> k < c' - 1 \<longrightarrow> os_path_exists f (suffixed ?base ?ext k)"
    using s by (simp add: less_diff_conv)
  moreover have n: "\<not> os_path_exists f (suffixed ?base ?ext (c' - 1))" using s p by simp
  moreover have "same_size_exists file_path (suffixed ?base ?ext (c' - 1)) f = Inr False"
    using n by (simp add: same_size_exists_def)
  ultimately show ?thesis using h p by blast
qed

text \<open>
  C4 as the specification states it fails. The destination holds \<^verbatim>\<open>a.jpg\<close> of 10
  bytes and \<^verbatim>\<open>a_1.jpg\<close> of 5 bytes, the source \<^verbatim>\<open>a.jpg\<close> has 5 bytes. The search
  does not stop at \<^verbatim>\<open>a_1.jpg\<close>, whose size is the source's: it returns
  \<^verbatim>\<open>a_2.jpg\<close>, and the file is processed, not skipped.
\<close>

theorem rename_passes_same_size_file:
  "os_path_exists fs_conflict ''/out/2024/03 - Mar/a.jpg'' \<and>
   os_path_getsize fs_conflict ''/in/a.jpg'' = Inr 5 \<and>
   os_path_getsize fs_conflict ''/out/2024/03 - Mar/a.jpg'' = Inr 10 \<and>
   os_path_getsize fs_conflict ''/out/2024/03 - Mar/a_1.jpg'' = Inr 5 \<and>
   handle_filename_conflicts ''/in/a.jpg'' ''/out/2024/03 - Mar/a.jpg'' fs_conflict
     = Inr ''/out/2024/03 - Mar/a_2.jpg'' \<and>
   process_file (example_env [''a.jpg'']) ''/in/a.jpg'' ''/out'' True False
       \<lparr>fs = fs_conflict, log = []\<rparr>
     = (Some True,
        \<lparr>fs = fs_conflict,
           log = [InfoWould False ''/in/a.jpg'' ''/out/2024/03 - Mar/a_2.jpg'']\<rparr>)"
  by code_simp

text \<open>C4 as amended, on the same destination.\<close>

theorem rename_stops_at_first_free_path_witness:
  "\<exists>n\<ge>1. handle_filename_conflicts ''/in/a.jpg'' ''/out/2024/03 - Mar/a.jpg'' fs_conflict
           = Inr (suffixed (fst (os_path_splitext ''/out/2024/03 - Mar/a.jpg''))
                    (snd (os_path_splitext ''/out/2024/03 - Mar/a.jpg'')) n) \<and>
         \<not> os_path_exists fs_conflict
             (suffixed (fst (os_path_splitext ''/out/2024/03 - Mar/a.jpg''))
                (snd (os_path_splitext ''/out/2024/03 - Mar/a.jpg'')) n) \<and>
         same_size_exists ''/in/a.jpg''
           (suffixed (fst (os_path_splitext ''/out/2024/03 - Mar/a.jpg''))
              (snd (os_path_splitext ''/out/2024/03 - Mar/a.jpg'')) n) fs_conflict
           = Inr False"
proof -
  have h1: "os_path_exists fs_conflict ''/out/2024/03 - Mar/a.jpg''" by code_simp
  have h2: "os_path_getsize fs_conflict ''/in/a.jpg'' = Inr 5" by code_simp
  have h3: "os_path_getsize fs_conflict ''/out/2024/03 - Mar/a.jpg'' = Inr 10" by code_simp
  have h4: "(5::nat) \<noteq> 10" by simp
  from rename_stops_at_first_free_path [OF h1 h2 h3 h4] show ?thesis by blast
qed

subsection \<open>The planned path\<close>

lemma mkdirs_errors:
  "mkdirs e ps f = Inl x \<Longrightarrow> x = FileExistsError \<or> x = NotADirectoryError"
  by (induction ps arbitrary: f) (auto split: option.splits if_splits)

lemma month_abbrev_last: "month_abbrev m \<noteq> [] \<and> last (month_abbrev m) \<noteq> CHR ''/''"
  by (simp add: month_abbrev_def)

lemma basename_hd: "\<not> (os_path_basename p \<noteq> [] \<and> hd (os_path_basename p) = CHR ''/'')"
  using basename_no_sep [of p] hd_in_set [of "os_path_basename p"] by metis

lemma decimal_digit_not_sep: "digit_char (nat (i mod 10)) \<noteq> CHR ''/''"
  by (rule digit_char_not_sep) (simp add: nat_less_iff)

lemma create_destination_path_ok:
  assumes "datetime_ok d"
  shows "create_destination_path e dest_root d file_path w =
     (case os_makedirs e
             (os_path_join dest_root
               [four_digits (year d), two_digits (month d) @ '' - '' @ month_abbrev (month d)])
             (fs w) of
        Inl x \<Rightarrow> (Inl x, w)
      | Inr f \<Rightarrow>
          (Inr (os_path_join
                  (os_path_join dest_root
                    [four_digits (year d),
                     two_digits (month d) @ '' - '' @ month_abbrev (month d)])
                  [os_path_basename file_path]),
           w\<lparr>fs := f\<rparr>))"
  using assms
  by (simp add: create_destination_path_def datetime_ok_def month_table format_year format_month
      Let_def cong: sum.case_cong)

lemma join_join: "os_path_join (os_path_join a xs) ys = os_path_join a (xs @ ys)"
  by (simp add: os_path_join_def)

lemma join_layout:
  assumes "dest_root \<noteq> []" and "last dest_root \<noteq> CHR ''/''"
  shows "os_path_join dest_root
           [four_digits y, two_digits m @ '' - '' @ month_abbrev m, os_path_basename file_path]
         = dest_root @ ''/'' @ four_digits y @ ''/'' @ two_digits m @ '' - '' @ month_abbrev m
             @ ''/'' @ os_path_basename file_path"
  using assms basename_hd [of file_path] month_abbrev_last [of m]
  by (simp add: os_path_join_def join2_def four_digits_def two_digits_def decimal_digit_not_sep)

text \<open>
  C5. For a date that Python's \<^verbatim>\<open>datetime\<close> can hold, whenever
  \<^verbatim>\<open>create_destination_path\<close> returns a path, that path is the destination root
  joined with the four-digit year, with the two-digit month followed by
  \<^verbatim>\<open>" - "\<close> and the English three-letter month name, and with the base name of the
  source file; for a root that is not empty and does not end with a slash this is
  \<^verbatim>\<open>root/YYYY/MM - Mon/name\<close>. A photograph \<^verbatim>\<open>a.jpg\<close> taken on 2024-03-15 10:00:00
  with root \<^verbatim>\<open>/out\<close> is planned to \<^verbatim>\<open>/out/2024/03 - Mar/a.jpg\<close>.
\<close>

theorem planned_path_layout:
  assumes "datetime_ok d"
    and "create_destination_path e dest_root d file_path w = (Inr p, w')"
  shows "p = os_path_join dest_root
               [four_digits (year d), two_digits (month d) @ '' - '' @ month_abbrev (month d),
                os_path_basename file_path] \<and>
         (dest_root \<noteq> [] \<and> last dest_root \<noteq> CHR ''/'' \<longrightarrow>
            p = dest_root @ ''/'' @ four_digits (year d) @ ''/'' @ two_digits (month d) @ '' - ''
                  @ month_abbrev (month d) @ ''/'' @ os_path_basename file_path)"
proof (intro conjI impI)
  from assms(2) have "p = os_path_join
      (os_path_join dest_root
        [four_digits (year d), two_digits (month d) @ '' - '' @ month_abbrev (month d)])
      [os_path_basename file_path]"
    by (simp add: create_destination_path_ok [OF assms(1)] split: sum.splits)
  then show j: "p = os_path_join dest_root
               [four_digits (year d), two_digits (month d) @ '' - '' @ month_abbrev (month d),
                os_path_basename file_path]"
    by (simp only: join_join append.simps)
  assume "dest_root \<noteq> [] \<and> last dest_root \<noteq> CHR ''/''"
  then have "dest_root \<noteq> []" and "last dest_root \<noteq> CHR ''/''" by simp_all
  from join_layout [OF this, of "year d" "month d" file_path] j
  show "p = dest_root @ ''/'' @ four_digits (year d) @ ''/'' @ two_digits (month d) @ '' - ''
                  @ month_abbrev (month d) @ ''/'' @ os_path_basename file_path"
    by (simp only:)
qed

theorem planned_path_layout_witness:
  "datetime_ok march15 \<and>
   fst (create_destination_path (example_env []) ''/out'' march15 ''/in/a.jpg''
          \<lparr>fs = fs_fresh, log = []\<rparr>) = Inr ''/out/2024/03 - Mar/a.jpg''"
proof -
  let ?r = "create_destination_path (example_env []) ''/out'' march15 ''/in/a.jpg''
          \<lparr>fs = fs_fresh, log = []\<rparr>"
  have ok: "datetime_ok march15" by (simp add: datetime_ok_def march15_def)
  have "\<not> isl (fst ?r)" by code_simp
  then obtain p where fp: "fst ?r = Inr p" by (cases "fst ?r") auto
  then have r: "?r = (Inr p, snd ?r)" by (metis prod.collapse)
  have ev: "''/out'' @ ''/'' @ four_digits (year march15) @ ''/'' @ two_digits (month march15)
              @ '' - '' @ month_abbrev (month march15) @ ''/'' @ os_path_basename ''/in/a.jpg''
            = ''/out/2024/03 - Mar/a.jpg''"
    by code_simp
  have q: "p = ''/out'' @ ''/'' @ four_digits (year march15) @ ''/'' @ two_digits (month march15)
              @ '' - '' @ month_abbrev (month march15) @ ''/'' @ os_path_basename ''/in/a.jpg''"
  proof (rule mp [OF conjunct2 [OF planned_path_layout [OF ok r]]])
    show "''/out'' \<noteq> [] \<and> last ''/out'' \<noteq> CHR ''/''" by simp
  qed
  have "p = ''/out/2024/03 - Mar/a.jpg''" by (rule trans [OF q ev])
  with ok fp show ?thesis by blast
qed

text \<open>
  C10. For a date that Python's \<^verbatim>\<open>datetime\<close> can hold, the index \<^verbatim>\<open>month - 1\<close>
  lies within the twelve entries of the month-name table, the lookup returns the
  month's name, and \<^verbatim>\<open>create_destination_path\<close> never fails with an
  \<^verbatim>\<open>IndexError\<close>.
\<close>

theorem month_table_lookup_in_bounds:
  assumes "datetime_ok d"
  shows "0 \<le> month d - 1 \<and> month d - 1 < int (length month_names) \<and>
         length month_names = 12 \<and>
         py_index month_names (month d - 1) = Inr (month_abbrev (month d)) \<and>
         fst (create_destination_path e dest_root d file_path w) \<noteq> Inl IndexError"
proof -
  have "fst (create_destination_path e dest_root d file_path w) \<noteq> Inl IndexError"
    using mkdirs_errors [of e _ "fs w" IndexError]
    by (auto simp: create_destination_path_ok [OF assms] os_makedirs_def split: sum.splits)
  with assms show ?thesis
    by (simp add: datetime_ok_def month_table) (simp add: month_names_def)
qed

theorem month_table_lookup_in_bounds_witness:
  "datetime_ok march15 \<and> py_index month_names (month march15 - 1) = Inr ''Mar'' \<and>
   fst (create_destination_path (example_env []) ''/out'' march15 ''/in/a.jpg''
          \<lparr>fs = fs_fresh, log = []\<rparr>) \<noteq> Inl IndexError"
proof -
  have ok: "datetime_ok march15" by (simp add: datetime_ok_def march15_def)
  have "month_abbrev (month march15) = ''Mar''" by (simp add: month_abbrev_def march15_def)
  with month_table_lookup_in_bounds [OF ok, of "example_env []" "''/out''" "''/in/a.jpg''"
      "\<lparr>fs = fs_fresh, log = []\<rparr>"] ok
  show ?thesis by simp
qed

subsection \<open>Date resolution\<close>

lemma log_logger: "log (logger ev w) = log w @ [ev]" and fs_logger: "fs (logger ev w) = fs w"
  by (simp_all add: logger_def)

lemma try_backend_fs: "fs (snd (try_backend a ev w)) = fs w"
  by (cases a) (simp_all add: try_backend_def fs_logger)

lemma image_backends_keep_fs: "fs (snd (get_date_taken_from_image e p w)) = fs w"
  by (auto simp: get_date_taken_from_image_def try_backend_fs fs_logger try_backend_def
      split: prod.splits option.splits attempt.splits)

lemma video_backend_keeps_fs: "fs (snd (get_date_taken_from_video e p w)) = fs w"
  by (simp add: get_date_taken_from_video_def try_backend_fs)

lemma add_date_to_exif_log:
  "set (log w) \<subseteq> set (log (snd (add_date_to_exif e p d w)))"
  by (auto simp: add_date_to_exif_def log_logger split: option.splits)



lemma get_file_date_fallback:
  assumes "(if file_ext_of p \<in> IMAGE_EXTENSIONS then get_date_taken_from_image e p w
            else if file_ext_of p \<in> VIDEO_EXTENSIONS then get_date_taken_from_video e p w
            else (None, w)) = (None, w1)"
    and "fmlookup (fs w1) p = Some n"
    and "fromtimestamp e (st_mtime n) = Inr d"
  shows "get_file_date e p w =
           (Inr d,
            if file_ext_of p \<in> IMAGE_EXTENSIONS \<and> HAS_PIL e \<and> HAS_PIEXIF e
            then logger (InfoAddedExif p)
                   (snd (add_date_to_exif e p d (logger (InfoNoMetadata p d) w1)))
            else logger (InfoNoMetadata p d) w1)"
  using assms by (simp add: get_file_date_def Let_def os_path_getmtime_def)

lemma get_file_date_conversion_raises:
  assumes "(if file_ext_of p \<in> IMAGE_EXTENSIONS then get_date_taken_from_image e p w
            else if file_ext_of p \<in> VIDEO_EXTENSIONS then get_date_taken_from_video e p w
            else (None, w)) = (None, w1)"
    and "fmlookup (fs w1) p = Some n"
    and "fromtimestamp e (st_mtime n) = Inl x"
  shows "get_file_date e p w = (Inl x, w1)"
  using assms by (simp add: get_file_date_def Let_def os_path_getmtime_def)

lemma get_file_date_missing:
  assumes "(if file_ext_of p \<in> IMAGE_EXTENSIONS then get_date_taken_from_image e p w
            else if file_ext_of p \<in> VIDEO_EXTENSIONS then get_date_taken_from_video e p w
            else (None, w)) = (None, w1)"
    and "fmlookup (fs w1) p = None"
  shows "get_file_date e p w = (Inl FileNotFoundError, w1)"
  using assms by (simp add: get_file_date_def Let_def os_path_getmtime_def)

lemma metadata_lookup_keeps_fs:
  assumes "(if file_ext_of p \<in> IMAGE_EXTENSIONS then get_date_taken_from_image e p w
            else if file_ext_of p \<in> VIDEO_EXTENSIONS then get_date_taken_from_video e p w
            else (None, w)) = (r, w1)"
  shows "fs w1 = fs w"
  using assms image_backends_keep_fs [of e p w] video_backend_keeps_fs [of e p w]
  by (auto split: if_splits)

text \<open>
  C6, as the code has it. Take a file for which the metadata lookup that applies to
  its extension yields no date. If the file exists, \<^verbatim>\<open>get_file_date\<close> returns what
  \<^verbatim>\<open>datetime.fromtimestamp\<close> makes of the file's modification time: that date, with
  a log record that the modification time was used, when the conversion succeeds, and
  the exception of the conversion when it raises. If the file does not exist,
  \<^verbatim>\<open>os.path.getmtime\<close> raises and \<^verbatim>\<open>get_file_date\<close> raises with it. Nothing in
  \<^verbatim>\<open>get_file_date\<close> catches either exception.
\<close>

theorem fallback_to_modification_time:
  assumes "file_ext_of file_path \<in> IMAGE_EXTENSIONS \<longrightarrow>
           fst (get_date_taken_from_image e file_path w) = None"
    and "file_ext_of file_path \<notin> IMAGE_EXTENSIONS \<and> file_ext_of file_path \<in> VIDEO_EXTENSIONS \<longrightarrow>
           fst (get_date_taken_from_video e file_path w) = None"
  shows "(\<forall>n. fmlookup (fs w) file_path = Some n \<longrightarrow>
            fst (get_file_date e file_path w) = fromtimestamp e (st_mtime n) \<and>
            (\<forall>d. fromtimestamp e (st_mtime n) = Inr d \<longrightarrow>
               InfoNoMetadata file_path d \<in> set (log (snd (get_file_date e file_path w))))) \<and>
         (fmlookup (fs w) file_path = None \<longrightarrow>
            fst (get_file_date e file_path w) = Inl FileNotFoundError)"
proof -
  let ?m = "if file_ext_of file_path \<in> IMAGE_EXTENSIONS
            then get_date_taken_from_image e file_path w
            else if file_ext_of file_path \<in> VIDEO_EXTENSIONS
            then get_date_taken_from_video e file_path w
            else (None, w)"
  have "fst ?m = None" using assms by simp
  then have m: "?m = (None, snd ?m)" by (metis prod.collapse)
  have f: "fs (snd ?m) = fs w" by (rule metadata_lookup_keeps_fs [OF m])
  have a: "fst (get_file_date e file_path w) = fromtimestamp e (st_mtime n) \<and>
           (\<forall>d. fromtimestamp e (st_mtime n) = Inr d \<longrightarrow>
              InfoNoMetadata file_path d \<in> set (log (snd (get_file_date e file_path w))))"
    if "fmlookup (fs w) file_path = Some n" for n
  proof (cases "fromtimestamp e (st_mtime n)")
    case (Inl x)
    from that f have l: "fmlookup (fs (snd ?m)) file_path = Some n" by simp
    from get_file_date_conversion_raises [OF m l Inl] Inl show ?thesis by simp
  next
    case (Inr d)
    from that f have l: "fmlookup (fs (snd ?m)) file_path = Some n" by simp
    note r = get_file_date_fallback [OF m l Inr]
    have "InfoNoMetadata file_path d \<in> set (log (snd (get_file_date e file_path w)))"
      using add_date_to_exif_log [of "logger (InfoNoMetadata file_path d) (snd ?m)" e file_path d]
      by (auto simp: r log_logger)
    with Inr show ?thesis by (simp add: r)
  qed
  have b: "fst (get_file_date e file_path w) = Inl FileNotFoundError"
    if "fmlookup (fs w) file_path = None"
  proof -
    from that f have l: "fmlookup (fs (snd ?m)) file_path = None" by simp
    from get_file_date_missing [OF m l] show ?thesis by simp
  qed
  from a b show ?thesis by blast
qed

text \<open>
  C6 as the specification states it fails. A photograph without a metadata date
  whose modification time is the first second of the year 10000 exists, but
  \<^verbatim>\<open>datetime.fromtimestamp\<close> raises \<^verbatim>\<open>ValueError\<close> for that time: the fallback does
  not succeed, \<^verbatim>\<open>get_file_date\<close> returns no timestamp, and \<^verbatim>\<open>process_file\<close> reports
  the file as failed.
\<close>

theorem fallback_can_raise:
  "fmlookup fs_far_future ''/in/a.jpg'' = Some ((photo 10 NoValue)\<lparr>st_mtime := 253402300800\<rparr>) \<and>
   fst (get_date_taken_from_image (example_env []) ''/in/a.jpg''
          \<lparr>fs = fs_far_future, log = []\<rparr>) = None \<and>
   fst (get_file_date (example_env []) ''/in/a.jpg'' \<lparr>fs = fs_far_future, log = []\<rparr>)
     = Inl ValueError \<and>
   process_file (example_env []) ''/in/a.jpg'' ''/out'' False False
       \<lparr>fs = fs_far_future, log = []\<rparr>
     = (Some False, \<lparr>fs = fs_far_future, log = [ErrProcessing ''/in/a.jpg'' ValueError]\<rparr>)"
  by code_simp

text \<open>
  C6 as amended, on a photograph in which no backend finds a date and whose
  modification time is 2024-03-15 10:00:00.
\<close>

theorem fallback_to_modification_time_witness:
  "fmlookup fs_bare ''/in/a.jpg'' = Some (photo 10 NoValue) \<and>
   fst (get_date_taken_from_image (example_env []) ''/in/a.jpg'' \<lparr>fs = fs_bare, log = []\<rparr>) = None \<and>
   fst (get_file_date (example_env []) ''/in/a.jpg'' \<lparr>fs = fs_bare, log = []\<rparr>) = Inr march15 \<and>
   InfoNoMetadata ''/in/a.jpg'' march15
     \<in> set (log (snd (get_file_date (example_env []) ''/in/a.jpg'' \<lparr>fs = fs_bare, log = []\<rparr>)))"
proof -
  let ?w = "\<lparr>fs = fs_bare, log = []\<rparr>"
  have l: "fmlookup (fs ?w) ''/in/a.jpg'' = Some (photo 10 NoValue)" by code_simp
  have i: "file_ext_of ''/in/a.jpg'' \<in> IMAGE_EXTENSIONS" by code_simp
  have n: "fst (get_date_taken_from_image (example_env []) ''/in/a.jpg'' ?w) = None" by code_simp
  have t: "fromtimestamp (example_env []) (st_mtime (photo 10 NoValue)) = Inr march15"
    by code_simp
  have "fst (get_file_date (example_env []) ''/in/a.jpg'' ?w)
          = fromtimestamp (example_env []) (st_mtime (photo 10 NoValue)) \<and>
        (\<forall>d. fromtimestamp (example_env []) (st_mtime (photo 10 NoValue)) = Inr d \<longrightarrow>
           InfoNoMetadata ''/in/a.jpg'' d \<in> set (log (snd (get_file_date (example_env []) ''/in/a.jpg'' ?w))))"
    using fallback_to_modification_time [of "''/in/a.jpg''" "example_env []" ?w] i n l by blast
  with t l n show ?thesis by simp
qed

subsection \<open>Dry runs and the enrichment of source files\<close>

lemma mkdirs_frame:
  "mkdirs e ps f = Inr f' \<Longrightarrow> fmlookup f q = Some m \<Longrightarrow> fmlookup f' q = Some m"
proof (induction ps arbitrary: f)
  case Nil
  then show ?case by simp
next
  case (Cons a ps)
  show ?case
  proof (cases "fmlookup f a")
    case None
    with Cons.prems have r: "mkdirs e ps (fmupd a (fresh_dir e) f) = Inr f'" by simp
    from None Cons.prems(2) have "a \<noteq> q" by auto
    with Cons.prems(2) have "fmlookup (fmupd a (fresh_dir e) f) q = Some m" by simp
    from Cons.IH [OF r this] show ?thesis .
  next
    case (Some k)
    with Cons.prems have "mkdirs e ps f = Inr f'" by (simp split: if_splits)
    from Cons.IH [OF this Cons.prems(2)] show ?thesis .
  qed
qed

lemma create_destination_path_frame:
  assumes "create_destination_path e dest_root d p w = (r, w2)"
  shows "log w2 = log w \<and> (\<forall>q m. fmlookup (fs w) q = Some m \<longrightarrow> fmlookup (fs w2) q = Some m)"
  using assms
  by (auto simp: create_destination_path_def Let_def os_makedirs_def
      split: sum.splits dest: mkdirs_frame)

lemma process_file_dry_run_frame:
  assumes "get_file_date e p w = (Inr d, w1)"
  shows "set (log w1) \<subseteq> set (log (snd (process_file e p dest_root True c w))) \<and>
         (\<forall>q m. fmlookup (fs w1) q = Some m \<longrightarrow>
                  fmlookup (fs (snd (process_file e p dest_root True c w))) q = Some m)"
proof -
  obtain r w2 where cd: "create_destination_path e dest_root d p w1 = (r, w2)"
    by (cases "create_destination_path e dest_root d p w1")
  note fr = create_destination_path_frame [OF cd]
  have "\<exists>evs. snd (process_file e p dest_root True c w) = w2\<lparr>log := log w2 @ evs\<rparr>"
  proof (cases r)
    case (Inl x)
    then have "snd (process_file e p dest_root True c w) = w2\<lparr>log := log w2 @ [ErrProcessing p x]\<rparr>"
      by (simp add: process_file_def process_file_try_def assms cd logger_def)
    then show ?thesis by blast
  next
    case (Inr planned)
    show ?thesis
    proof (cases "handle_filename_conflicts p planned (fs w2)")
      case (Inl x)
      then have "snd (process_file e p dest_root True c w) = w2\<lparr>log := log w2 @ [ErrProcessing p x]\<rparr>"
        by (simp add: process_file_def process_file_try_def assms cd Inr logger_def)
      then show ?thesis by blast
    next
      case hc: (Inr dest_path)
      show ?thesis
      proof (cases "same_size_exists p dest_path (fs w2)")
        case (Inl x)
        then have "snd (process_file e p dest_root True c w) = w2\<lparr>log := log w2 @ [ErrProcessing p x]\<rparr>"
          by (simp add: process_file_def process_file_try_def assms cd Inr hc logger_def)
        then show ?thesis by blast
      next
        case ss: (Inr b)
        then have "snd (process_file e p dest_root True c w) =
             w2\<lparr>log := log w2 @ [if b then InfoSkipping p else InfoWould c p dest_path]\<rparr>"
          by (simp add: process_file_def process_file_try_def assms cd Inr hc logger_def)
        then show ?thesis by blast
      qed
    qed
  qed
  then obtain evs where "snd (process_file e p dest_root True c w) = w2\<lparr>log := log w2 @ evs\<rparr>" ..
  with fr show ?thesis by auto
qed

lemma add_date_to_exif_fs:
  assumes "HAS_PIL e" and "HAS_PIEXIF e"
    and "endswith (py_lower p) ''.jpg'' \<or> endswith (py_lower p) ''.jpeg''"
    and "fmlookup (fs w) p = Some n"
    and "piexif_insert e d n = Some n'"
  shows "fmlookup (fs (snd (add_date_to_exif e p d w))) p = Some n'"
  using assms by (simp add: add_date_to_exif_def)

text \<open>
  C9. \<^verbatim>\<open>get_file_date\<close> takes no run mode. With PIL and piexif present, for an
  existing file with an image extension in which the image backends find no date
  and whose modification time converts to a date,
  \<^verbatim>\<open>process_file\<close> called with \<^verbatim>\<open>dry_run = True\<close> still calls
  \<^verbatim>\<open>add_date_to_exif\<close> (the log records it), and for a name ending in
  \<^verbatim>\<open>.jpg\<close> or \<^verbatim>\<open>.jpeg\<close> whatever piexif writes is in the source file after the
  dry run.
\<close>

theorem enrichment_ignores_dry_run:
  assumes "HAS_PIL e" and "HAS_PIEXIF e"
    and "file_ext_of file_path \<in> IMAGE_EXTENSIONS"
    and "fst (get_date_taken_from_image e file_path w) = None"
    and "fmlookup (fs w) file_path = Some n"
    and "fromtimestamp e (st_mtime n) = Inr d"
  shows "InfoAddedExif file_path
           \<in> set (log (snd (process_file e file_path dest_root True c w))) \<and>
         ((endswith (py_lower file_path) ''.jpg'' \<or> endswith (py_lower file_path) ''.jpeg'') \<longrightarrow>
            (\<forall>n'. piexif_insert e d n = Some n' \<longrightarrow>
               fmlookup (fs (snd (process_file e file_path dest_root True c w))) file_path
                 = Some n'))"
proof -
  let ?wi = "snd (get_date_taken_from_image e file_path w)"
  let ?w2 = "logger (InfoNoMetadata file_path d) ?wi"
  let ?w1 = "logger (InfoAddedExif file_path) (snd (add_date_to_exif e file_path d ?w2))"
  have m: "(if file_ext_of file_path \<in> IMAGE_EXTENSIONS
            then get_date_taken_from_image e file_path w
            else if file_ext_of file_path \<in> VIDEO_EXTENSIONS
            then get_date_taken_from_video e file_path w
            else (None, w)) = (None, ?wi)"
    using assms(3,4) by (simp add: prod_eq_iff)
  have fi: "fs ?wi = fs w" by (rule image_backends_keep_fs)
  with assms(5) have l: "fmlookup (fs ?wi) file_path = Some n" by simp
  have g: "get_file_date e file_path w = (Inr d, ?w1)"
    using get_file_date_fallback [OF m l assms(6)] assms(1,2,3) by simp
  note fr = process_file_dry_run_frame [OF g, of dest_root c]
  have "InfoAddedExif file_path \<in> set (log ?w1)" by (simp add: log_logger)
  with fr have a: "InfoAddedExif file_path
           \<in> set (log (snd (process_file e file_path dest_root True c w)))" by blast
  have b: "fmlookup (fs (snd (process_file e file_path dest_root True c w))) file_path = Some n'"
    if j: "endswith (py_lower file_path) ''.jpg'' \<or> endswith (py_lower file_path) ''.jpeg''"
      and i: "piexif_insert e d n = Some n'" for n'
  proof -
    have "fmlookup (fs ?w2) file_path = Some n" using l by (simp add: fs_logger)
    from add_date_to_exif_fs [OF assms(1,2) j this i]
    have "fmlookup (fs ?w1) file_path = Some n'" by (simp add: fs_logger)
    with fr show ?thesis by blast
  qed
  from a b show ?thesis by blast
qed

text \<open>C9 on a JPEG without a date: the dry run leaves it 64 bytes longer, with a date.\<close>

theorem enrichment_ignores_dry_run_witness:
  "fmlookup fs_bare ''/in/a.jpg'' = Some (photo 10 NoValue) \<and>
   InfoAddedExif ''/in/a.jpg''
     \<in> set (log (snd (process_file (example_env []) ''/in/a.jpg'' ''/out'' True False
                         \<lparr>fs = fs_bare, log = []\<rparr>))) \<and>
   fmlookup (fs (snd (process_file (example_env []) ''/in/a.jpg'' ''/out'' True False
                         \<lparr>fs = fs_bare, log = []\<rparr>))) ''/in/a.jpg''
     = Some ((photo 10 NoValue)\<lparr>st_size := 74, pil_exif := Found march15\<rparr>)"
proof -
  let ?w = "\<lparr>fs = fs_bare, log = []\<rparr>"
  have h1: "HAS_PIL (example_env [])" and h2: "HAS_PIEXIF (example_env [])"
    by (simp_all add: example_env_def)
  have l: "fmlookup (fs ?w) ''/in/a.jpg'' = Some (photo 10 NoValue)" by code_simp
  have i: "file_ext_of ''/in/a.jpg'' \<in> IMAGE_EXTENSIONS" by code_simp
  have n: "fst (get_date_taken_from_image (example_env []) ''/in/a.jpg'' ?w) = None" by code_simp
  have t: "fromtimestamp (example_env []) (st_mtime (photo 10 NoValue)) = Inr march15"
    by code_simp
  have j: "endswith (py_lower ''/in/a.jpg'') ''.jpg''" by code_simp
  have p: "piexif_insert (example_env []) march15 (photo 10 NoValue)
           = Some ((photo 10 NoValue)\<lparr>st_size := 74, pil_exif := Found march15\<rparr>)"
    by (simp add: example_env_def photo_def)
  from enrichment_ignores_dry_run [OF h1 h2 i n l t, of "''/out''" False] j p l
  show ?thesis by simp
qed

subsection \<open>Extensions\<close>



subsection \<open>Whole runs\<close>

text \<open>
  C1. The destination already holds \<^verbatim>\<open>a.jpg\<close> with the size of the source. The run
  skips the file and leaves the filesystem as it was, but \<^verbatim>\<open>process_file\<close> returns
  \<^verbatim>\<open>None\<close> for the skip, the walker counts every falsy result as an error
  (0 processed, 1 error, 0 skipped), and the exit status is 1.
\<close>

theorem skipped_file_counted_as_error:
  "main (example_env [''a.jpg'']) (cli False) \<lparr>fs = fs_migrated, log = []\<rparr>
     = (1, \<lparr>fs = fs_migrated,
             log = [InfoStarting ''/in'' ''/out'', InfoMode False False,
                    InfoSkipping ''/in/a.jpg'', InfoComplete 0 1 0,
                    ErrCompletedWithErrors]\<rparr>)"
  by code_simp

text \<open>
  C2. A run with \<^verbatim>\<open>--dry-run\<close> on a destination without any year directory ends
  with status 0 and has created \<^verbatim>\<open>/out/2024\<close> and \<^verbatim>\<open>/out/2024/03 - Mar\<close>.
\<close>

theorem dry_run_creates_directories:
  "dry_run (cli True) \<and>
   map (fmlookup fs_fresh) [''/out/2024'', ''/out/2024/03 - Mar''] = [None, None] \<and>
   apsnd (\<lambda>w. map (fmlookup (fs w)) [''/out/2024'', ''/out/2024/03 - Mar''])
     (main (example_env [''a.jpg'']) (cli True) \<lparr>fs = fs_fresh, log = []\<rparr>)
     = (0, [Some a_dir, Some a_dir])"
  by code_simp

text \<open>
  C3. Two files, one already at the destination with the same size and one new. The
  new one is moved, the other is skipped, no file fails (the log has no
  \<^verbatim>\<open>ErrProcessing\<close>), yet the run counts 1 error and ends with status 1.
\<close>

theorem exit_status_counts_skip_as_failure:
  "apsnd log (main (example_env [''a.jpg'', ''b.jpg'']) (cli False) \<lparr>fs = fs_mixed, log = []\<rparr>)
     = (1, [InfoStarting ''/in'' ''/out'', InfoMode False False, InfoSkipping ''/in/a.jpg'',
            DebugMoving ''/in/b.jpg'' ''/out/2024/03 - Mar/b.jpg'', InfoComplete 1 1 0,
            ErrCompletedWithErrors])"
  by code_simp

end
